theory Spec2Isabelle
  imports Complex_Main "HOL-Library.Char_ord" "HOL-Library.List_Lexorder" "HOL-Library.Sublist"
begin

section \<open>Conventions of the embedding\<close>

text \<open>
  The Python sources under \<^verbatim>\<open>helpers/\<close> are embedded as HOL functions.
  \<^item> Python \<^verbatim>\<open>int\<close> is \<^typ>\<open>int\<close>; \<^verbatim>\<open>//\<close> and \<^verbatim>\<open>%\<close> are \<open>div\<close> and \<open>mod\<close>
    (both round towards minus infinity, as in Python), and a zero divisor raises.
  \<^item> Python \<^verbatim>\<open>float\<close> is idealised as an exact rational \<^typ>\<open>rat\<close>: rounding of
    IEEE doubles is not part of the model.
  \<^item> An exception is a value of \<open>exn\<close>; a function that may raise returns \<open>exn + 'a\<close>,
    and a function with effects returns its result together with the state it leaves,
    also when it raises.
  \<^item> The answers of the external collaborators (catalog, ffmpeg, ffprobe, the
    filesystem outside the scratch directories, the random generator) are explicit
    arguments, so that every theorem quantifies over all of them.
  \<^item> Console output (also the debug and verbose output) and wall-clock measurements are
    left out; thread pools are joined before their block is left, so their tasks are
    taken in submission order.
\<close>

datatype exn =
    IndexError | AttributeError | ZeroDivisionError | ValueError
  | FileNotFoundError | RuntimeError | CalledProcessError | RemoteError | OSError
  | OtherError string

section \<open>Sampling: video\_sprite\_generator.py and preview\_video\_generator.py\<close>

subsection \<open>Grid placement (take\_screenshots lines 97--98, create\_sprite lines 125--126)\<close>

text \<open>
  \<^verbatim>\<open>x = (i % self.columns) * self.max_width\<close>,
  \<^verbatim>\<open>y = (i // self.columns) * self.max_height\<close>; the cue written to the caption
  track is \<^verbatim>\<open>#xywh={x},{y},{max_width},{max_height}\<close>.
\<close>

definition grid_placement :: "int \<Rightarrow> int \<Rightarrow> int \<Rightarrow> int \<Rightarrow> exn + (int \<times> int \<times> int \<times> int)" where
  "grid_placement i columns w h =
     (if columns = 0 then Inl ZeroDivisionError
      else Inr ((i mod columns) * w, (i div columns) * h, w, h))"

subsection \<open>format\_time (video\_sprite\_generator.py lines 103--108)\<close>

definition py_int :: "rat \<Rightarrow> int" where
  \<comment> \<open>\<^verbatim>\<open>int(x)\<close> on a float: truncation towards zero\<close>
  "py_int x = (if 0 \<le> x then \<lfloor>x\<rfloor> else \<lceil>x\<rceil>)"

definition py_mod1 :: "rat \<Rightarrow> rat" where
  \<comment> \<open>\<^verbatim>\<open>x % 1\<close> on a float: the result has the sign of the divisor\<close>
  "py_mod1 x = x - of_int \<lfloor>x\<rfloor>"

fun dec_digits :: "nat \<Rightarrow> string" where
  "dec_digits n =
     (if n < 10 then [''0123456789'' ! n]
      else dec_digits (n div 10) @ [''0123456789'' ! (n mod 10)])"

declare dec_digits.simps [simp del]

definition format_int0 :: "nat \<Rightarrow> int \<Rightarrow> string" where
  \<comment> \<open>\<^verbatim>\<open>f"{k:0w}"\<close>: zero fill to width \<open>w\<close>, the sign counted in the width\<close>
  "format_int0 w k =
     (if k < 0
      then CHR ''-'' # replicate (w - 1 - length (dec_digits (nat (- k)))) CHR ''0''
             @ dec_digits (nat (- k))
      else replicate (w - length (dec_digits (nat k))) CHR ''0'' @ dec_digits (nat k))"

definition format_time :: "rat \<Rightarrow> string" where
  "format_time seconds =
     (let millisec = py_int (py_mod1 seconds * 1000);
          seconds1 = py_int seconds;
          minutes1 = seconds1 div 60; seconds2 = seconds1 mod 60;
          hours = minutes1 div 60; minutes2 = minutes1 mod 60
      in format_int0 2 hours @ '':'' @ format_int0 2 minutes2 @ '':''
           @ format_int0 2 seconds2 @ ''.'' @ format_int0 3 millisec)"



subsection \<open>get\_start\_times (preview\_video\_generator.py lines 98--100)\<close>

text \<open>
  The attributes of a \<^verbatim>\<open>PreviewVideoGenerator\<close> that its methods read. The paths are
  the ones \<^verbatim>\<open>__init__\<close> computes: \<open>p_temp_dir\<close> is \<^verbatim>\<open>.tmp/preview_temp_{filehash}\<close>.
\<close>

record preview_gen =
  p_filename :: string
  output_path :: string
  p_temp_dir :: string
  num_clips :: int
  clip_length :: rat
  skip_seconds :: rat
  p_use_vaapi :: "bool option"

definition get_start_times :: "preview_gen \<Rightarrow> rat \<Rightarrow> exn + rat list" where
  "get_start_times g video_duration =
     (if num_clips g + 1 = 0 then Inl ZeroDivisionError
      else let interval = (video_duration - skip_seconds g - clip_length g)
                            / of_int (num_clips g + 1)
           in Inr (map (\<lambda>i. skip_seconds g + interval * of_int i) [1 .. num_clips g]))"


section \<open>The world outside the program\<close>

text \<open>
  The state the program works on: the catalog (tags of every scene, fingerprints,
  covers), the error log, the scratch directories with the names of their entries, and
  the files outside them. \<open>claims\<close> and \<open>releases\<close> are ghost counters: \<open>claims\<close> counts
  the calls of \<^verbatim>\<open>claim_scene\<close> that returned, \<open>releases\<close> the calls of
  \<^verbatim>\<open>release_scene\<close>.
\<close>

datatype payload =
    Cues "(string \<times> string \<times> int \<times> int \<times> int \<times> int) list"
      \<comment> \<open>caption track: start, end, x, y, width, height of every cue\<close>
  | Tiles "(string \<times> int \<times> int) list"
      \<comment> \<open>sprite sheet: the pasted frame files with their positions\<close>
  | Spliced "string list"
      \<comment> \<open>preview video: the names of the clips it concatenates\<close>

record world =
  tags :: "nat \<Rightarrow> nat set"
  phashes :: "nat \<Rightarrow> string option"
  covers :: "nat \<Rightarrow> bool"
  error_log :: "(nat \<times> string) list"
  dirs :: "string \<Rightarrow> string list option"
  files :: "string \<Rightarrow> payload option"
  claims :: nat
  releases :: nat

text \<open>
  What the transcoder and the probe answer during one run. \<open>frame_run i\<close> and
  \<open>clip_run i\<close> are the outcome of \<^verbatim>\<open>subprocess.run(command, check=True)\<close> for sample
  \<open>i\<close> (\<open>None\<close>: exit status 0; \<open>Some e\<close>: it raised \<open>e\<close>); \<open>frame_written i\<close> and
  \<open>clip_written i\<close> tell whether the output file is on disk afterwards.
\<close>

record media_env =
  probe_duration :: "rat option"  \<comment> \<open>\<^verbatim>\<open>float(result.stdout)\<close>; \<open>None\<close>: not a number\<close>
  frame_run :: "int \<Rightarrow> exn option"
  frame_written :: "int \<Rightarrow> bool"
  clip_run :: "int \<Rightarrow> exn option"
  clip_written :: "int \<Rightarrow> bool"
  concat_run :: "exn option"
  concat_written :: bool

definition makedirs :: "string \<Rightarrow> world \<Rightarrow> world" where
  \<comment> \<open>\<^verbatim>\<open>os.makedirs(d, exist_ok=True)\<close>\<close>
  "makedirs d w = (case dirs w d of None \<Rightarrow> w\<lparr>dirs := (dirs w)(d \<mapsto> [])\<rparr> | Some _ \<Rightarrow> w)"

definition rmtree :: "string \<Rightarrow> world \<Rightarrow> world" where
  \<comment> \<open>\<^verbatim>\<open>if os.path.exists(d): shutil.rmtree(d)\<close>\<close>
  "rmtree d w = w\<lparr>dirs := (dirs w)(d := None)\<rparr>"

definition entries :: "string \<Rightarrow> world \<Rightarrow> string list" where
  \<comment> \<open>the entries of a scratch directory; none when it does not exist\<close>
  "entries d w = (case dirs w d of None \<Rightarrow> [] | Some es \<Rightarrow> es)"

section \<open>video\_sprite\_generator.py\<close>

record sprite_gen =
  video_path :: string
  s_temp_dir :: string   \<comment> \<open>\<^verbatim>\<open>.tmp/screenshots_{filehash}\<close>\<close>
  sprite_path :: string
  vtt_path :: string
  total_shots :: int
  max_width :: int
  max_height :: int
  columns :: int
  rows :: int
  s_use_vaapi :: "bool option"

definition clean_previous_files :: "sprite_gen \<Rightarrow> world \<Rightarrow> world" where
  "clean_previous_files g w =
     (let w1 = rmtree (s_temp_dir g) w in w1\<lparr>files := (files w1)(vtt_path g := None)\<rparr>)"

definition frame_name :: "int \<Rightarrow> string" where
  "frame_name i = ''frame_'' @ format_int0 3 i @ ''.jpg''"

definition extract_and_resize :: "media_env \<Rightarrow> int \<Rightarrow> rat \<Rightarrow> exn + (int \<times> rat)" where
  \<comment> \<open>the ffmpeg run, then \<^verbatim>\<open>Image.open\<close> of its output, which needs the file\<close>
  "extract_and_resize env i interval =
     (case frame_run env i of
        Some e \<Rightarrow> Inl e
      | None \<Rightarrow> if frame_written env i then Inr (i, of_int i * interval)
                else Inl FileNotFoundError)"

text \<open>
  The loop over the futures of \<open>take_screenshots\<close>, in submission order: the first
  result that raises ends the loop; \<open>acc\<close> are the cues written so far.
\<close>

fun write_cues ::
  "sprite_gen \<Rightarrow> media_env \<Rightarrow> rat \<Rightarrow> int list
   \<Rightarrow> (string \<times> string \<times> int \<times> int \<times> int \<times> int) list
   \<Rightarrow> (exn + bool) \<times> (string \<times> string \<times> int \<times> int \<times> int \<times> int) list" where
  "write_cues g env interval [] acc = (Inr True, acc)"
| "write_cues g env interval (i # rest) acc =
     (case extract_and_resize env i interval of
        Inl e \<Rightarrow> (Inl e, acc)
      | Inr (j, t) \<Rightarrow>
          (case grid_placement j (columns g) (max_width g) (max_height g) of
             Inl e \<Rightarrow> (Inl e, acc)
           | Inr (x, y, tw, th) \<Rightarrow>
               write_cues g env interval rest
                 (acc @ [(format_time t, format_time (t + interval), x, y, tw, th)])))"

text \<open>
  All extractions are submitted to the pool before the first result is read, and the
  pool is joined when its \<^verbatim>\<open>with\<close> block is left, also by an exception: afterwards
  the scratch directory holds the frame of every sample whose file was written.
\<close>

definition take_screenshots :: "sprite_gen \<Rightarrow> media_env \<Rightarrow> world \<Rightarrow> (exn + bool) \<times> world" where
  "take_screenshots g env w =
     (let w1 = makedirs (s_temp_dir g) (clean_previous_files g w) in
      case probe_duration env of
        None \<Rightarrow> (Inr False, w1)
      | Some duration \<Rightarrow>
          if duration = 0 then (Inr False, w1)
          else if total_shots g = 0 then (Inl ZeroDivisionError, w1)
          else
            let interval = duration / of_int (total_shots g);
                shots = [0 .. total_shots g - 1];
                frames = map frame_name (filter (frame_written env) shots);
                (r, cues) = write_cues g env interval shots []
            in (r, w1\<lparr>dirs := (dirs w1)(s_temp_dir g \<mapsto> frames),
                      files := (files w1)(vtt_path g \<mapsto> Cues cues)\<rparr>))"

fun paste_tiles :: "sprite_gen \<Rightarrow> int \<Rightarrow> string list \<Rightarrow> exn + (string \<times> int \<times> int) list" where
  "paste_tiles g idx [] = Inr []"
| "paste_tiles g idx (img # rest) =
     (case grid_placement idx (columns g) (max_width g) (max_height g) of
        Inl e \<Rightarrow> Inl e
      | Inr (x, y, tw, th) \<Rightarrow>
          (case paste_tiles g (idx + 1) rest of
             Inl e \<Rightarrow> Inl e
           | Inr ps \<Rightarrow> Inr ((img, x, y) # ps)))"

definition create_sprite :: "sprite_gen \<Rightarrow> world \<Rightarrow> (exn + unit) \<times> world" where
  "create_sprite g w =
     (case dirs w (s_temp_dir g) of
        None \<Rightarrow> (Inl FileNotFoundError, w)
      | Some names \<Rightarrow>
          let images = filter (suffix ''.jpg'') (sort names) in
          if images = [] then (Inl ValueError, w)
          else (case paste_tiles g 0 images of
                  Inl e \<Rightarrow> (Inl e, w)
                | Inr ps \<Rightarrow> (Inr (), w\<lparr>files := (files w)(sprite_path g \<mapsto> Tiles ps)\<rparr>)))"

definition clean_up :: "sprite_gen \<Rightarrow> world \<Rightarrow> world" where
  "clean_up g w = rmtree (s_temp_dir g) w"

definition generate_sprite :: "sprite_gen \<Rightarrow> media_env \<Rightarrow> world \<Rightarrow> (exn + unit) \<times> world" where
  \<comment> \<open>\<^verbatim>\<open>try: ... finally: self.clean_up()\<close>\<close>
  "generate_sprite g env w =
     (let (r, w1) =
            (case take_screenshots g env w of
               (Inl e, w') \<Rightarrow> (Inl e, w')
             | (Inr result, w') \<Rightarrow> if result then create_sprite g w' else (Inr (), w'))
      in (r, clean_up g w1))"

section \<open>preview\_video\_generator.py\<close>

definition clean_previous_clips :: "preview_gen \<Rightarrow> world \<Rightarrow> world" where
  "clean_previous_clips g w = rmtree (p_temp_dir g) w"

definition clip_name :: "int \<Rightarrow> string" where
  "clip_name i = ''clip_'' @ format_int0 3 i @ ''.mp4''"

text \<open>
  \<open>extract_clip\<close>, local to \<open>generate_clips\<close>: \<^verbatim>\<open>CalledProcessError\<close> is caught and
  the clip dropped (\<open>None\<close>); any other exception leaves the function.
\<close>

definition extract_clip :: "media_env \<Rightarrow> int \<Rightarrow> exn + string option" where
  "extract_clip env i =
     (case clip_run env i of
        None \<Rightarrow> Inr (Some (clip_name i))
      | Some CalledProcessError \<Rightarrow> Inr None
      | Some e \<Rightarrow> Inl e)"

fun collect_clips :: "media_env \<Rightarrow> int list \<Rightarrow> string list \<Rightarrow> exn + string list" where
  "collect_clips env [] clips = Inr clips"
| "collect_clips env (i # rest) clips =
     (case extract_clip env i of
        Inl e \<Rightarrow> Inl e
      | Inr None \<Rightarrow> collect_clips env rest clips
      | Inr (Some clip) \<Rightarrow> collect_clips env rest (clips @ [clip]))"

definition generate_clips :: "preview_gen \<Rightarrow> media_env \<Rightarrow> world \<Rightarrow> (exn + string list) \<times> world" where
  "generate_clips g env w =
     (let w1 = makedirs (p_temp_dir g) w in
      case probe_duration env of
        None \<Rightarrow> (Inl ValueError, w1)
      | Some video_duration \<Rightarrow>
          (case get_start_times g video_duration of
             Inl e \<Rightarrow> (Inl e, w1)
           | Inr start_times \<Rightarrow>
               let idxs = [0 .. int (length start_times) - 1];
                   written = map clip_name (filter (clip_written env) idxs);
                   w2 = w1\<lparr>dirs := (dirs w1)(p_temp_dir g \<mapsto> entries (p_temp_dir g) w1 @ written)\<rparr>
               in (collect_clips env idxs [], w2)))"

definition concatenate_clips :: "preview_gen \<Rightarrow> media_env \<Rightarrow> string list \<Rightarrow> world \<Rightarrow> (exn + unit) \<times> world" where
  "concatenate_clips g env clips w =
     (let present = entries (p_temp_dir g) w;
          missing = filter (\<lambda>clip. clip \<notin> set present) clips
      in if missing \<noteq> [] then (Inl FileNotFoundError, w)
         else
           let w1 = w\<lparr>dirs := (dirs w)(p_temp_dir g \<mapsto> present @ [''clips.txt''])\<rparr>;
               w2 = (if concat_written env
                     then w1\<lparr>files := (files w1)(output_path g \<mapsto> Spliced (sort clips))\<rparr>
                     else w1)
           in (case concat_run env of
                 None \<Rightarrow> (Inr (), w2)
               | Some CalledProcessError \<Rightarrow> (Inl RuntimeError, w2)
               | Some e \<Rightarrow> (Inl e, w2)))"

definition generate_preview :: "preview_gen \<Rightarrow> media_env \<Rightarrow> world \<Rightarrow> (exn + unit) \<times> world" where
  "generate_preview g env w =
     (case generate_clips g env (clean_previous_clips g w) of
        (Inl e, w1) \<Rightarrow> (Inl e, w1)
      | (Inr clips, w1) \<Rightarrow>
          if clips = [] then (Inr (), w1)
          else
            \<comment> \<open>\<^verbatim>\<open>try: concatenate ... except Exception: print ... finally: clean\<close>\<close>
            let (r, w2) = concatenate_clips g env clips w1
            in (Inr (), clean_previous_clips g w2))"

section \<open>config.py\<close>

text \<open>
  The settings the helpers import from \<^verbatim>\<open>config\<close>. They are parameters of the model;
  \<open>shipped_config\<close> holds the values of \<^verbatim>\<open>config.py\<close> as it is in the repository
  (the branch for a system other than Windows).
\<close>

record config =
  hashing_tag :: nat
  hashing_error_tag :: nat
  cover_error_tag :: nat
  per_page :: int
  cfg_generate_sprite :: bool
  cfg_generate_preview :: bool
  cfg_sprite_path :: string
  cfg_preview_path :: string
  preview_clips :: int
  preview_clip_length :: rat
  preview_skip_seconds :: rat
  dry_run :: bool
  filemask :: "string option"
  cfg_translations :: "(string \<times> string) list"  \<comment> \<open>\<^verbatim>\<open>orig\<close> and \<^verbatim>\<open>local\<close> of every entry\<close>

definition shipped_config :: config where
  "shipped_config = \<lparr>hashing_tag = 15015, hashing_error_tag = 15018, cover_error_tag = 15019,
      per_page = 25, cfg_generate_sprite = True, cfg_generate_preview = True,
      cfg_sprite_path = ''/mnt/stash/stash/generated/vtt'',
      cfg_preview_path = ''/mnt/stash/stash/generated/screenshots'',
      preview_clips = 15, preview_clip_length = 1, preview_skip_seconds = 15,
      dry_run = False, filemask = None,
      cfg_translations = [(''/data/'', ''/mnt/strangyr/''), (''/xerxes/'', ''/mnt/xerxes/''),
                      (''/data_stranghouse/'', ''/mnt/Stranghouse/'')]\<rparr>"

section \<open>stash\_utils.py\<close>

datatype mode = ADD | REMOVE

text \<open>
  \<^verbatim>\<open>stash.update_scenes({"ids": scene_id, "tag_ids": {"ids": tag, "mode": mode}})\<close>:
  the call of the catalog client. \<open>ok\<close> is the catalog's answer: when it rejects the call
  or cannot be reached, the client raises and the tags stay as they were.
\<close>

definition update_scenes :: "bool \<Rightarrow> nat \<Rightarrow> nat \<Rightarrow> mode \<Rightarrow> world \<Rightarrow> (exn + unit) \<times> world" where
  "update_scenes ok sid tag m w =
     (if \<not> ok then (Inl RemoteError, w)
      else (Inr (), w\<lparr>tags := (tags w)(sid :=
              (case m of ADD \<Rightarrow> insert tag (tags w sid) | REMOVE \<Rightarrow> tags w sid - {tag}))\<rparr>))"

text \<open>
  The answers one call of \<open>tag_scene_error\<close> gets: of the catalog to its two updates, and
  of the filesystem to the append to \<^verbatim>\<open>error_log.txt\<close>.
\<close>

record tag_answers =
  add_ok :: bool
  remove_ok :: bool
  log_ok :: bool

definition tag_scene_error ::
  "config \<Rightarrow> tag_answers \<Rightarrow> nat \<Rightarrow> nat \<Rightarrow> string option \<Rightarrow> world \<Rightarrow> (exn + unit) \<times> world" where
  "tag_scene_error cfg ans sid error_tag error_msg w =
     (if dry_run cfg then (Inr (), w)
      else
        (case update_scenes (add_ok ans) sid error_tag ADD w of
           (Inl e, w1) \<Rightarrow> (Inl e, w1)
         | (Inr u, w1) \<Rightarrow>
             (case update_scenes (remove_ok ans) sid (hashing_tag cfg) REMOVE w1 of
                (Inl e, w2) \<Rightarrow> (Inl e, w2)
              | (Inr u, w2) \<Rightarrow>
                  (case error_msg of
                     None \<Rightarrow> (Inr (), w2)
                   | Some msg \<Rightarrow>
                       if msg = [] then (Inr (), w2)
                       else if log_ok ans
                       then (Inr (), w2\<lparr>error_log := error_log w2 @ [(sid, msg)]\<rparr>)
                       else (Inl OSError, w2)))))"

definition claim_scene :: "config \<Rightarrow> bool \<Rightarrow> nat \<Rightarrow> world \<Rightarrow> (exn + unit) \<times> world" where
  "claim_scene cfg ok sid w =
     (if dry_run cfg then (Inr (), w\<lparr>claims := claims w + 1\<rparr>)
      else
        (case update_scenes ok sid (hashing_tag cfg) ADD w of
           (Inl e, w1) \<Rightarrow> (Inl e, w1)
         | (Inr u, w1) \<Rightarrow> (Inr (), w1\<lparr>claims := claims w1 + 1\<rparr>)))"

definition release_scene :: "config \<Rightarrow> bool \<Rightarrow> nat \<Rightarrow> world \<Rightarrow> (exn + unit) \<times> world" where
  "release_scene cfg ok sid w =
     (let w0 = w\<lparr>releases := releases w + 1\<rparr> in
      if dry_run cfg then (Inr (), w0)
      else update_scenes ok sid (hashing_tag cfg) REMOVE w0)"

definition update_phash :: "config \<Rightarrow> bool \<Rightarrow> nat \<Rightarrow> string \<Rightarrow> world \<Rightarrow> (exn + unit) \<times> world" where
  "update_phash cfg ok file_id phash w =
     (if dry_run cfg then (Inr (), w)
      else if \<not> ok then (Inl RemoteError, w)
      else (Inr (), w\<lparr>phashes := (phashes w)(file_id \<mapsto> phash)\<rparr>))"

definition update_cover :: "config \<Rightarrow> bool \<Rightarrow> nat \<Rightarrow> world \<Rightarrow> (exn + unit) \<times> world" where
  "update_cover cfg ok sid w =
     (if dry_run cfg then (Inr (), w)
      else if \<not> ok then (Inl RemoteError, w)
      else (Inr (), w\<lparr>covers := (covers w)(sid := True)\<rparr>))"

section \<open>scene\_discovery.py\<close>

text \<open>
  A scene as the catalog returns it for the fragment
  \<^verbatim>\<open>id files{id path fingerprints{value type}} paths{screenshot}\<close>.
\<close>

record scene_file =
  f_id :: nat
  f_path :: string
  fingerprints :: "(string \<times> string) list"  \<comment> \<open>type and value\<close>

record scene =
  sc_id :: nat
  sc_files :: "scene_file list"
  screenshot :: "string option"

text \<open>
  The two queries \<open>discover_scenes\<close> sends, both for the scenes without a phash that
  carry none of the listed tags: \<open>AllIds\<close> asks for the ids of all of them
  (\<^verbatim>\<open>per_page = -1\<close>, fragment \<^verbatim>\<open>id\<close>), \<open>FullPage tags per_page page\<close> for one page with
  the full fragment. The catalog is the function \<open>find_scenes\<close> from queries to answers;
  \<open>randint\<close> is \<^verbatim>\<open>random.randint\<close> and \<open>fnmatch\<close> is \<^verbatim>\<open>fnmatch.fnmatch\<close>.
  The result comes with the list of the queries sent.
\<close>

datatype query = AllIds "nat list" | FullPage "nat list" int int

definition basename :: "string \<Rightarrow> string" where
  \<comment> \<open>\<^verbatim>\<open>os.path.basename\<close> of \<^verbatim>\<open>posixpath\<close>: what follows the last slash\<close>
  "basename p = rev (takeWhile (\<lambda>c. c \<noteq> CHR ''/'') (rev p))"

definition discover_scenes ::
  "config \<Rightarrow> (query \<Rightarrow> exn + scene list) \<Rightarrow> (int \<Rightarrow> int \<Rightarrow> int) \<Rightarrow> (string \<Rightarrow> string \<Rightarrow> bool)
   \<Rightarrow> (exn + scene list) \<times> query list" where
  "discover_scenes cfg find_scenes randint fnmatch =
     (let excluded = [hashing_tag cfg, hashing_error_tag cfg, cover_error_tag cfg] in
      case find_scenes (AllIds excluded) of
        Inl e \<Rightarrow> (Inl e, [AllIds excluded])
      | Inr all_scenes \<Rightarrow>
          let total_count = int (length all_scenes) in
          if total_count = 0 then (Inr [], [AllIds excluded])
          else if per_page cfg = 0 then (Inl ZeroDivisionError, [AllIds excluded])
          else
            let total_pages = max 1 ((total_count + per_page cfg - 1) div per_page cfg);
                selected_page = randint 1 total_pages;
                sent = [AllIds excluded, FullPage excluded (per_page cfg) selected_page]
            in (case find_scenes (FullPage excluded (per_page cfg) selected_page) of
                  Inl e \<Rightarrow> (Inl e, sent)
                | Inr batch_scenes \<Rightarrow>
                    (case filemask cfg of
                       None \<Rightarrow> (Inr batch_scenes, sent)
                     | Some pat \<Rightarrow>
                         if pat = [] then (Inr batch_scenes, sent)
                         else (Inr (filter (\<lambda>s. \<exists>f \<in> set (sc_files s).
                                               fnmatch (basename (f_path f)) pat) batch_scenes),
                               sent))))"

section \<open>scene\_processor.py\<close>

text \<open>
  The steps \<open>process_scene\<close> names when it logs a failure, used here to tell the calls
  of \<open>tag_scene_error\<close> apart.
\<close>

datatype step = FileCheck | Hashing | CoverGeneration | CoverSetup | SpriteGeneration | PreviewGeneration

text \<open>
  What the outside answers during one call of \<open>process_scene\<close>: the path library and
  the filesystem (\<open>normpath\<close>, \<open>media_exists\<close>), the random generator, the catalog
  (\<open>claim_ok\<close>, \<open>release_ok\<close>, \<open>phash_ok\<close>, \<open>cover_ok\<close>, and \<open>tag_answer\<close> for every call of
  \<open>tag_scene_error\<close>), the hashing binary (\<open>videohash\<close>: its run and the parsing of its
  output), the download of the cover (\<open>cover_fetch\<close>: whether it contains \<^verbatim>\<open><svg\<close>), the
  two ffmpeg runs for a cover with the presence of their output, and the transcoder.
  \<open>error_text e\<close> is \<^verbatim>\<open>str(e)\<close>.
\<close>

record env =
  normpath :: "string \<Rightarrow> string"
  media_exists :: "string \<Rightarrow> bool"
  random_token :: string
  claim_ok :: bool
  release_ok :: bool
  tag_answer :: "step \<Rightarrow> tag_answers"
  error_text :: "exn \<Rightarrow> string"
  videohash :: "exn + string"
  phash_ok :: bool
  cover_fetch :: "exn + bool"
  cover_run1 :: "exn option"
  cover_file1 :: bool
  cover_run2 :: "exn option"
  cover_file2 :: bool
  cover_ok :: bool
  media :: media_env

record outcome =
  success :: bool
  o_scene_id :: nat

definition pretty_name :: "string \<Rightarrow> string option" where
  \<comment> \<open>\<^verbatim>\<open>re.search(r'.*[/\\](.*?)$', filename)\<close>: \<open>None\<close> when the path has no separator\<close>
  "pretty_name f =
     (if CHR ''/'' \<in> set f \<or> CHR 0x5C \<in> set f
      then Some (rev (takeWhile (\<lambda>c. c \<noteq> CHR ''/'' \<and> c \<noteq> CHR 0x5C) (rev f)))
      else None)"

fun replace_first :: "string \<Rightarrow> string \<Rightarrow> string \<Rightarrow> string" where
  \<comment> \<open>\<^verbatim>\<open>s.replace(orig, local, 1)\<close>\<close>
  "replace_first orig local [] = (if orig = [] then local else [])"
| "replace_first orig local (c # cs) =
     (if prefix orig (c # cs) then local @ drop (length orig) (c # cs)
      else c # replace_first orig local cs)"

fun translate :: "(string \<times> string) list \<Rightarrow> string \<Rightarrow> string" where
  "translate [] filename = filename"
| "translate ((orig, local) # ts) filename = translate ts (replace_first orig local filename)"

definition lower :: "string \<Rightarrow> string" where
  \<comment> \<open>\<^verbatim>\<open>str.lower\<close> on the letters of ASCII\<close>
  "lower s = map (\<lambda>c. case map_of (zip ''ABCDEFGHIJKLMNOPQRSTUVWXYZ''
                                      ''abcdefghijklmnopqrstuvwxyz'') c of
                         None \<Rightarrow> c | Some l \<Rightarrow> l) s"

fun last_oshash :: "(string \<times> string) list \<Rightarrow> string \<Rightarrow> string" where
  "last_oshash [] filehash = filehash"
| "last_oshash ((ty, v) # fps) filehash =
     last_oshash fps (if lower ty = ''oshash'' then v else filehash)"

definition scene_filehash :: "env \<Rightarrow> scene_file \<Rightarrow> string" where
  "scene_filehash env file =
     (let filehash = last_oshash (fingerprints file) [] in
      if filehash = [] \<or> CHR '':'' \<in> set filehash \<or> CHR 0x5C \<in> set filehash
           \<or> CHR ''/'' \<in> set filehash
      then random_token env else filehash)"

text \<open>Lines 80--99: the phash. The result is whether \<open>success\<close> stays true.\<close>

definition phash_step :: "config \<Rightarrow> env \<Rightarrow> nat \<Rightarrow> nat \<Rightarrow> world \<Rightarrow> (exn + bool) \<times> world" where
  "phash_step cfg env sid file_id w =
     (if dry_run cfg then (Inr True, w)
      else
        (case (case videohash env of
                 Inl e \<Rightarrow> (Inl e, w)
               | Inr phash \<Rightarrow> update_phash cfg (phash_ok env) file_id phash w) of
           (Inr u, w1) \<Rightarrow> (Inr True, w1)
         | (Inl e, w1) \<Rightarrow>
             (case tag_scene_error cfg (tag_answer env Hashing) sid (hashing_error_tag cfg)
                     (Some (error_text env e)) w1 of
                (Inl e', w2) \<Rightarrow> (Inl e', w2)
              | (Inr u, w2) \<Rightarrow> (Inr False, w2))))"

text \<open>Lines 124--133: the body of the inner \<^verbatim>\<open>try\<close> of the cover step.\<close>

definition cover_extract :: "config \<Rightarrow> env \<Rightarrow> nat \<Rightarrow> world \<Rightarrow> (exn + unit) \<times> world" where
  "cover_extract cfg env sid w =
     (case cover_run1 env of
        Some e \<Rightarrow> (Inl e, w)
      | None \<Rightarrow>
          (case (if cover_file1 env then None else cover_run2 env) of
             Some e \<Rightarrow> (Inl e, w)
           | None \<Rightarrow>
               if \<not> (cover_file1 env \<or> cover_file2 env) then (Inl FileNotFoundError, w)
               else update_cover cfg (cover_ok env) sid w))"

text \<open>
  Lines 101--144: the cover. The inner handler tags the scene and the inner
  \<^verbatim>\<open>finally\<close> removes the scratch directory; whatever leaves the outer \<^verbatim>\<open>try\<close> is
  caught by the outer handler, which tags the scene again.
\<close>

definition cover_step :: "config \<Rightarrow> env \<Rightarrow> scene \<Rightarrow> string \<Rightarrow> world \<Rightarrow> (exn + unit) \<times> world" where
  "cover_step cfg env sc filehash w =
     (let temp_dir = ''.tmp/cover_temp_'' @ filehash;
          (r, w1) =
            (case screenshot sc of
               None \<Rightarrow> (Inr (), w)
             | Some cover_image \<Rightarrow>
                 if cover_image = [] then (Inr (), w)
                 else
                   (case cover_fetch env of
                      Inl e \<Rightarrow> (Inl e, w)
                    | Inr is_svg \<Rightarrow>
                        if \<not> is_svg then (Inr (), w)
                        else
                          let w0 = makedirs temp_dir w in
                          if dry_run cfg then (Inr (), w0)
                          else
                            let (r1, w1) = cover_extract cfg env (sc_id sc) w0;
                                (r2, w2) =
                                  (case r1 of
                                     Inr u \<Rightarrow> (Inr (), w1)
                                   | Inl e \<Rightarrow>
                                       tag_scene_error cfg (tag_answer env CoverGeneration)
                                         (sc_id sc) (cover_error_tag cfg)
                                         (Some (error_text env e)) w1)
                            in (r2, rmtree temp_dir w2)))
      in case r of
           Inr u \<Rightarrow> (Inr (), w1)
         | Inl e \<Rightarrow>
             tag_scene_error cfg (tag_answer env CoverSetup) (sc_id sc) (cover_error_tag cfg)
               (Some (error_text env e)) w1)"

text \<open>Lines 146--178: the sprite, with the defaults of \<^verbatim>\<open>VideoSpriteGenerator\<close>.\<close>

definition sprite_step ::
  "config \<Rightarrow> env \<Rightarrow> bool \<Rightarrow> nat \<Rightarrow> string \<Rightarrow> string \<Rightarrow> world \<Rightarrow> (exn + bool) \<times> world" where
  "sprite_step cfg env vaapi_supported sid filename filehash w =
     (if \<not> cfg_generate_sprite cfg then (Inr True, w)
      else
        let sprite_file = cfg_sprite_path cfg @ ''/'' @ filehash @ ''_sprite.jpg'';
            vtt_file = cfg_sprite_path cfg @ ''/'' @ filehash @ ''_thumbs.vtt''
        in if files w sprite_file \<noteq> None then (Inr True, w)
           else if dry_run cfg then (Inr True, w)
           else
             (case generate_sprite
                     \<lparr>video_path = filename, s_temp_dir = ''.tmp/screenshots_'' @ filehash,
                      sprite_path = sprite_file, vtt_path = vtt_file, total_shots = 81,
                      max_width = 160, max_height = 90, columns = 9, rows = 9,
                      s_use_vaapi = Some vaapi_supported\<rparr> (media env) w of
                (Inr u, w1) \<Rightarrow> (Inr True, w1)
              | (Inl e, w1) \<Rightarrow>
                  (case tag_scene_error cfg (tag_answer env SpriteGeneration) sid
                          (hashing_error_tag cfg) (Some (error_text env e)) w1 of
                     (Inl e', w2) \<Rightarrow> (Inl e', w2)
                   | (Inr u, w2) \<Rightarrow> (Inr False, w2))))"

text \<open>Lines 180--222: the preview.\<close>

definition preview_step ::
  "config \<Rightarrow> env \<Rightarrow> bool \<Rightarrow> nat \<Rightarrow> string \<Rightarrow> string \<Rightarrow> world \<Rightarrow> (exn + bool) \<times> world" where
  "preview_step cfg env vaapi_supported sid filename filehash w =
     (if \<not> cfg_generate_preview cfg then (Inr True, w)
      else
        let preview_file = cfg_preview_path cfg @ ''/'' @ filehash @ ''.mp4''
        in if files w preview_file \<noteq> None then (Inr True, w)
           else if dry_run cfg then (Inr True, w)
           else
             (case generate_preview
                     \<lparr>p_filename = filename, output_path = preview_file,
                      p_temp_dir = ''.tmp/preview_temp_'' @ filehash,
                      num_clips = preview_clips cfg, clip_length = preview_clip_length cfg,
                      skip_seconds = preview_skip_seconds cfg,
                      p_use_vaapi = Some vaapi_supported\<rparr> (media env) w of
                (Inr u, w1) \<Rightarrow> (Inr True, w1)
              | (Inl e, w1) \<Rightarrow>
                  (case tag_scene_error cfg (tag_answer env PreviewGeneration) sid
                          (hashing_error_tag cfg) (Some (error_text env e)) w1 of
                     (Inl e', w2) \<Rightarrow> (Inl e', w2)
                   | (Inr u, w2) \<Rightarrow> (Inr False, w2))))"

text \<open>Lines 73--231: the body of the \<^verbatim>\<open>try\<close> whose \<^verbatim>\<open>finally\<close> releases the scene.\<close>

definition process_claimed ::
  "config \<Rightarrow> env \<Rightarrow> bool \<Rightarrow> scene \<Rightarrow> scene_file \<Rightarrow> string \<Rightarrow> string \<Rightarrow> world
   \<Rightarrow> (exn + outcome) \<times> world" where
  "process_claimed cfg env vaapi_supported sc file filename filehash w =
     (case phash_step cfg env (sc_id sc) (f_id file) w of
        (Inl e, w1) \<Rightarrow> (Inl e, w1)
      | (Inr hashed, w1) \<Rightarrow>
          (case cover_step cfg env sc filehash w1 of
             (Inl e, w2) \<Rightarrow> (Inl e, w2)
           | (Inr u, w2) \<Rightarrow>
               (case sprite_step cfg env vaapi_supported (sc_id sc) filename filehash w2 of
                  (Inl e, w3) \<Rightarrow> (Inl e, w3)
                | (Inr sprited, w3) \<Rightarrow>
                    (case preview_step cfg env vaapi_supported (sc_id sc) filename filehash w3 of
                       (Inl e, w4) \<Rightarrow> (Inl e, w4)
                     | (Inr previewed, w4) \<Rightarrow>
                         (Inr \<lparr>success = hashed \<and> sprited \<and> previewed,
                               o_scene_id = sc_id sc\<rparr>, w4)))))"

definition process_scene ::
  "config \<Rightarrow> env \<Rightarrow> bool \<Rightarrow> scene \<Rightarrow> world \<Rightarrow> (exn + outcome) \<times> world" where
  "process_scene cfg env vaapi_supported sc w =
     (case sc_files sc of
        [] \<Rightarrow> (Inl IndexError, w)
      | file # others \<Rightarrow>
          (case pretty_name (f_path file) of
             None \<Rightarrow> (Inl AttributeError, w)
           | Some filename_pretty \<Rightarrow>
               let filename = normpath env (translate (cfg_translations cfg) (f_path file));
                   filehash = scene_filehash env file
               in if \<not> media_exists env filename
                  then
                    (case tag_scene_error cfg (tag_answer env FileCheck) (sc_id sc)
                            (hashing_error_tag cfg) (Some ''File not found after translation'') w of
                       (Inl e, w1) \<Rightarrow> (Inl e, w1)
                     | (Inr u, w1) \<Rightarrow> (Inr \<lparr>success = False, o_scene_id = sc_id sc\<rparr>, w1))
                  else
                    (case claim_scene cfg (claim_ok env) (sc_id sc) w of
                       (Inl e, w1) \<Rightarrow> (Inl e, w1)
                     | (Inr u, w1) \<Rightarrow>
                         \<comment> \<open>\<^verbatim>\<open>try: ... finally: release_scene(scene_id)\<close>\<close>
                         let (r, w2) = process_claimed cfg env vaapi_supported sc file
                                          filename filehash w1;
                             (released, w3) = release_scene cfg (release_ok env) (sc_id sc) w2
                         in (case released of Inl e \<Rightarrow> (Inl e, w3) | Inr u \<Rightarrow> (r, w3)))))"

text \<open>Two worlds with the same ghost counters: no claim and no release in between.\<close>

definition same_counts :: "world \<Rightarrow> world \<Rightarrow> bool" where
  "same_counts w w' \<longleftrightarrow> claims w' = claims w \<and> releases w' = releases w"

section \<open>Concrete runs\<close>

text \<open>The inputs at which the theorems below are evaluated.\<close>

definition empty_world :: world where
  "empty_world = \<lparr>tags = (\<lambda>s. {}), phashes = (\<lambda>f. None), covers = (\<lambda>s. False), error_log = [],
      dirs = (\<lambda>d. None), files = (\<lambda>p. None), claims = 0, releases = 0\<rparr>"

definition sprite3 :: sprite_gen where
  "sprite3 = \<lparr>video_path = ''/mnt/a.mp4'', s_temp_dir = ''.tmp/screenshots_h'',
      sprite_path = ''/vtt/h_sprite.jpg'', vtt_path = ''/vtt/h_thumbs.vtt'', total_shots = 3,
      max_width = 160, max_height = 90, columns = 2, rows = 2, s_use_vaapi = None\<rparr>"

definition second_frame_fails :: media_env where
  "second_frame_fails = \<lparr>probe_duration = Some 30,
      frame_run = (\<lambda>i. if i = 1 then Some CalledProcessError else None),
      frame_written = (\<lambda>i. i \<noteq> 1),
      clip_run = (\<lambda>i. None), clip_written = (\<lambda>i. True),
      concat_run = None, concat_written = True\<rparr>"

definition preview5 :: preview_gen where
  "preview5 = \<lparr>p_filename = ''/mnt/a.mp4'', output_path = ''/out/h.mp4'',
      p_temp_dir = ''.tmp/preview_temp_h'', num_clips = 5, clip_length = 1, skip_seconds = 15,
      p_use_vaapi = None\<rparr>"

definition all_clips_fail :: media_env where
  "all_clips_fail = \<lparr>probe_duration = Some 100,
      frame_run = (\<lambda>i. None), frame_written = (\<lambda>i. True),
      clip_run = (\<lambda>i. Some CalledProcessError), clip_written = (\<lambda>i. False),
      concat_run = None, concat_written = True\<rparr>"

definition all_ok :: tag_answers where
  "all_ok = \<lparr>add_ok = True, remove_ok = True, log_ok = True\<rparr>"

definition claimed_world :: world where
  \<comment> \<open>scene 7 holds the processing tag\<close>
  "claimed_world = empty_world\<lparr>tags := (\<lambda>s. if s = 7 then {15015} else {})\<rparr>"

definition file7 :: scene_file where
  "file7 = \<lparr>f_id = 70, f_path = ''/data/clips/a.mp4'', fingerprints = [(''oshash'', ''abc123'')]\<rparr>"

definition scene7 :: scene where
  "scene7 = \<lparr>sc_id = 7, sc_files = [file7], screenshot = None\<rparr>"

definition calm_env :: env where
  \<comment> \<open>every collaborator answers, the media file is there\<close>
  "calm_env = \<lparr>normpath = (\<lambda>p. p), media_exists = (\<lambda>p. True), random_token = ''k3j9x0q2m5vz'',
      claim_ok = True, release_ok = True, tag_answer = (\<lambda>s. all_ok),
      error_text = (\<lambda>e. ''failed''), videohash = Inr ''ffee0011'', phash_ok = True,
      cover_fetch = Inr False, cover_run1 = None, cover_file1 = True, cover_run2 = None,
      cover_file2 = True, cover_ok = True, media = all_clips_fail\<rparr>"




definition sixty_scenes :: "scene list" where
  "sixty_scenes = map (\<lambda>i. \<lparr>sc_id = i, sc_files = [], screenshot = None\<rparr>) [0 ..< 60]"

definition paged_catalog :: "query \<Rightarrow> exn + scene list" where
  "paged_catalog q =
     (case q of
        AllIds ex \<Rightarrow> Inr sixty_scenes
      | FullPage ex pp p \<Rightarrow> Inr (take (nat pp) (drop (nat ((p - 1) * pp)) sixty_scenes)))"

definition empty_catalog :: "query \<Rightarrow> exn + scene list" where
  "empty_catalog q = Inr []"

definition draw_last :: "int \<Rightarrow> int \<Rightarrow> int" where
  "draw_last a b = b"

definition no_match :: "string \<Rightarrow> string \<Rightarrow> bool" where
  "no_match name pat = False"

section \<open>Properties of the sampling functions\<close>



subsection \<open>Timecodes\<close>










subsection \<open>Clip start times\<close>




section \<open>Properties of the sprite pipeline\<close>

lemma write_cues_append:
  assumes "\<forall>j \<in> set pre. \<exists>v. extract_and_resize env j interval = Inr v"
    and "columns g \<noteq> 0"
  shows "\<exists>acc'. write_cues g env interval (pre @ rest) acc = write_cues g env interval rest acc'"
  using assms
proof (induction pre arbitrary: acc)
  case Nil
  then show ?case by auto
next
  case (Cons j pre)
  then obtain v where v: "extract_and_resize env j interval = Inr v" by auto
  obtain a b where ab: "v = (a, b)" by (cases v)
  from Cons.prems(2) obtain x y tw th where
    gp: "grid_placement a (columns g) (max_width g) (max_height g) = Inr (x, y, tw, th)"
    by (simp add: grid_placement_def)
  from Cons.IH [of "acc @ [(format_time b, format_time (b + interval), x, y, tw, th)]"] Cons.prems
  show ?case by (simp add: v ab gp)
qed

lemma write_cues_raises:
  assumes "i \<in> set shots" and "extract_and_resize env i interval = Inl e"
  shows "\<exists>e'. fst (write_cues g env interval shots acc) = Inl e'"
  using assms
proof (induction shots arbitrary: acc)
  case Nil
  then show ?case by simp
next
  case (Cons j rest)
  show ?case
  proof (cases "extract_and_resize env j interval")
    case (Inl e1)
    then show ?thesis by simp
  next
    case (Inr v)
    with Cons.prems have i: "i \<in> set rest" by auto
    obtain a b where ab: "v = (a, b)" by (cases v)
    show ?thesis
    proof (cases "grid_placement a (columns g) (max_width g) (max_height g)")
      case (Inl e2)
      with Inr ab show ?thesis by simp
    next
      case r: (Inr q)
      obtain x y tw th where q: "q = (x, y, tw, th)" by (cases q)
      from Cons.IH [OF i Cons.prems(2)] Inr ab r q show ?thesis by simp
    qed
  qed
qed

lemma generate_sprite_cleans: "dirs (snd (generate_sprite g env w)) (s_temp_dir g) = None"
  by (simp add: generate_sprite_def clean_up_def rmtree_def split: prod.splits)

lemma take_screenshots_keeps_sprite:
  assumes "sprite_path g \<noteq> vtt_path g"
  shows "files (snd (take_screenshots g env w)) (sprite_path g) = files w (sprite_path g)"
  using assms
  by (simp add: take_screenshots_def clean_previous_files_def makedirs_def rmtree_def Let_def
      split: option.splits prod.splits)

lemma extract_fails:
  "frame_run env i \<noteq> None \<or> \<not> frame_written env i \<Longrightarrow> \<exists>e. extract_and_resize env i interval = Inl e"
  by (auto simp: extract_and_resize_def split: option.splits)

lemma take_screenshots_raises:
  assumes "probe_duration env = Some d" "d \<noteq> 0" "0 \<le> i" "i < total_shots g"
    and "frame_run env i \<noteq> None \<or> \<not> frame_written env i"
  shows "\<exists>e. fst (take_screenshots g env w) = Inl e"
proof -
  from assms(5) obtain e where e: "extract_and_resize env i (d / of_int (total_shots g)) = Inl e"
    using extract_fails by blast
  have "i \<in> set [0 .. total_shots g - 1]" using assms by simp
  from write_cues_raises [OF this e, of g "[]"]
  obtain e' where "fst (write_cues g env (d / of_int (total_shots g)) [0 .. total_shots g - 1] []) = Inl e'" ..
  then show ?thesis using assms
    by (auto simp: take_screenshots_def Let_def split: prod.splits)
qed

lemma take_screenshots_first_failure:
  assumes "probe_duration env = Some d" "d \<noteq> 0" "0 \<le> i" "i < total_shots g"
    and "columns g \<noteq> 0"
    and "\<forall>j. 0 \<le> j \<and> j < i \<longrightarrow> frame_run env j = None \<and> frame_written env j"
    and "extract_and_resize env i (d / of_int (total_shots g)) = Inl e"
  shows "fst (take_screenshots g env w) = Inl e"
proof -
  define iv where "iv = d / of_int (total_shots g)"
  have split: "[0 .. total_shots g - 1] = [0 .. i - 1] @ i # [i + 1 .. total_shots g - 1]"
    using assms(3,4) upto_split1 [of 0 i "total_shots g - 1"] upto_rec1 [of i "total_shots g - 1"]
    by simp
  have "\<forall>j \<in> set [0 .. i - 1]. \<exists>v. extract_and_resize env j iv = Inr v"
    using assms(6) by (simp add: extract_and_resize_def)
  from write_cues_append [OF this assms(5), of "i # [i + 1 .. total_shots g - 1]" "[]"]
  obtain acc' where "write_cues g env iv [0 .. total_shots g - 1] []
      = write_cues g env iv (i # [i + 1 .. total_shots g - 1]) acc'"
    unfolding split by blast
  then have "fst (write_cues g env iv [0 .. total_shots g - 1] []) = Inl e"
    using assms(7) by (simp add: iv_def)
  then show ?thesis using assms(1,2,4)
    by (auto simp: take_screenshots_def Let_def iv_def split: prod.splits)
qed

text \<open>
  Claim C3. After \<open>generate_sprite\<close> the scratch directory is absent, whatever happened
  (success, a failed probe, or any exception). In a run that extracts frames (the probe
  gave a non-zero duration) and in which the extraction of some frame \<open>i\<close> below
  \<open>total_shots\<close> fails (its ffmpeg run raises, or leaves no file for \<^verbatim>\<open>Image.open\<close>),
  \<open>generate_sprite\<close> raises and the sprite file is left as it was: \<open>create_sprite\<close> is
  never reached, so no partial sprite is written. The exception that leaves
  \<open>generate_sprite\<close> is the one of the first failing extraction, unchanged (the source
  has no exception class of its own: this is what the specification calls
  \<^verbatim>\<open>SpriteError\<close>).
\<close>

theorem generate_sprite_aborts:
  "dirs (snd (generate_sprite g env w)) (s_temp_dir g) = None
   \<and> (probe_duration env = Some d \<and> d \<noteq> 0 \<and> 0 \<le> i \<and> i < total_shots g
        \<and> (frame_run env i \<noteq> None \<or> \<not> frame_written env i)
        \<and> sprite_path g \<noteq> vtt_path g
      \<longrightarrow> (\<exists>e. fst (generate_sprite g env w) = Inl e)
          \<and> files (snd (generate_sprite g env w)) (sprite_path g) = files w (sprite_path g)
          \<and> (columns g \<noteq> 0
               \<and> (\<forall>j. 0 \<le> j \<and> j < i \<longrightarrow> frame_run env j = None \<and> frame_written env j)
             \<longrightarrow> (\<forall>e. extract_and_resize env i (d / of_int (total_shots g)) = Inl e
                      \<longrightarrow> fst (generate_sprite g env w) = Inl e)))"
proof (intro conjI impI)
  show "dirs (snd (generate_sprite g env w)) (s_temp_dir g) = None"
    by (rule generate_sprite_cleans)
next
  assume h: "probe_duration env = Some d \<and> d \<noteq> 0 \<and> 0 \<le> i \<and> i < total_shots g
        \<and> (frame_run env i \<noteq> None \<or> \<not> frame_written env i)
        \<and> sprite_path g \<noteq> vtt_path g"
  then obtain e where e: "fst (take_screenshots g env w) = Inl e"
    using take_screenshots_raises [of env d i g w] by blast
  obtain r w' where rw: "take_screenshots g env w = (r, w')" by (cases "take_screenshots g env w")
  with e have r: "r = Inl e" by simp
  show "\<exists>e. fst (generate_sprite g env w) = Inl e"
    by (simp add: generate_sprite_def rw r)
  have "files w' (sprite_path g) = files w (sprite_path g)"
    using take_screenshots_keeps_sprite [of g env w] h rw by simp
  then show "files (snd (generate_sprite g env w)) (sprite_path g) = files w (sprite_path g)"
    by (simp add: generate_sprite_def rw r clean_up_def rmtree_def)
  assume f: "columns g \<noteq> 0
     \<and> (\<forall>j. 0 \<le> j \<and> j < i \<longrightarrow> frame_run env j = None \<and> frame_written env j)"
  show "\<forall>e. extract_and_resize env i (d / of_int (total_shots g)) = Inl e
          \<longrightarrow> fst (generate_sprite g env w) = Inl e"
  proof (intro allI impI)
    fix e1 assume e1: "extract_and_resize env i (d / of_int (total_shots g)) = Inl e1"
    from h f e1 have "fst (take_screenshots g env w) = Inl e1"
      by (intro take_screenshots_first_failure) simp_all
    with rw have "r = Inl e1" by simp
    then show "fst (generate_sprite g env w) = Inl e1"
      by (simp add: generate_sprite_def rw)
  qed
qed

theorem generate_sprite_aborts_witness:
  "probe_duration second_frame_fails = Some 30 \<and> (30::rat) \<noteq> 0 \<and> (0::int) \<le> 1
   \<and> 1 < total_shots sprite3
   \<and> frame_run second_frame_fails 1 = Some CalledProcessError
   \<and> sprite_path sprite3 \<noteq> vtt_path sprite3
   \<and> columns sprite3 \<noteq> 0
   \<and> frame_run second_frame_fails 0 = None \<and> frame_written second_frame_fails 0
   \<and> extract_and_resize second_frame_fails 1 (30 / of_int (total_shots sprite3))
        = Inl CalledProcessError
   \<and> dirs (snd (generate_sprite sprite3 second_frame_fails empty_world)) (s_temp_dir sprite3) = None
   \<and> fst (generate_sprite sprite3 second_frame_fails empty_world) = Inl CalledProcessError
   \<and> files (snd (generate_sprite sprite3 second_frame_fails empty_world)) (sprite_path sprite3)
        = files empty_world (sprite_path sprite3)"
proof -
  have hyp: "probe_duration second_frame_fails = Some 30 \<and> (30::rat) \<noteq> 0 \<and> (0::int) \<le> 1
      \<and> 1 < total_shots sprite3
      \<and> (frame_run second_frame_fails 1 \<noteq> None \<or> \<not> frame_written second_frame_fails 1)
      \<and> sprite_path sprite3 \<noteq> vtt_path sprite3"
    by (simp add: second_frame_fails_def sprite3_def)
  have first: "columns sprite3 \<noteq> 0
      \<and> (\<forall>j. 0 \<le> j \<and> j < 1 \<longrightarrow>
            frame_run second_frame_fails j = None \<and> frame_written second_frame_fails j)"
    by (simp add: second_frame_fails_def sprite3_def)
  have ex: "extract_and_resize second_frame_fails 1 (30 / of_int (total_shots sprite3))
      = Inl CalledProcessError"
    by (simp add: extract_and_resize_def second_frame_fails_def)
  have run: "frame_run second_frame_fails 1 = Some CalledProcessError
      \<and> frame_run second_frame_fails 0 = None \<and> frame_written second_frame_fails 0"
    by (simp add: second_frame_fails_def)
  from generate_sprite_aborts [of sprite3 second_frame_fails empty_world 30 1] hyp first ex run
  show ?thesis by auto
qed

section \<open>Properties of the preview pipeline\<close>





text \<open>
  Claim C5 at its failing input. With five requested clips whose extractions all exit
  with a non-zero status, \<open>generate_preview\<close> returns before its
  \<^verbatim>\<open>try ... finally\<close> block and the scratch directory it created is still there.
\<close>

theorem generate_preview_leaves_scratch:
  "dirs (snd (generate_preview preview5 all_clips_fail empty_world)) (p_temp_dir preview5) = Some []"
  by code_simp

section \<open>Properties of the catalog helpers\<close>

text \<open>
  Claim C10. Outside dry-run mode, after a call \<open>tag_scene_error sid error_tag\<close> has
  returned, the tags of the scene include \<open>error_tag\<close> and exclude the processing tag
  \<open>hashing_tag\<close>: tagging a scene as failed also takes its claim away. (\<open>error_tag\<close> is an
  error tag, not the processing tag itself.)
\<close>

theorem tag_scene_error_marks:
  assumes "\<not> dry_run cfg" and "error_tag \<noteq> hashing_tag cfg"
    and "fst (tag_scene_error cfg ans sid error_tag error_msg w) = Inr ()"
  shows "error_tag \<in> tags (snd (tag_scene_error cfg ans sid error_tag error_msg w)) sid
       \<and> hashing_tag cfg \<notin> tags (snd (tag_scene_error cfg ans sid error_tag error_msg w)) sid"
  using assms
  by (auto simp: tag_scene_error_def update_scenes_def split: if_splits option.splits)

theorem tag_scene_error_marks_witness:
  "\<not> dry_run shipped_config \<and> (15018::nat) \<noteq> hashing_tag shipped_config
   \<and> fst (tag_scene_error shipped_config all_ok 7 15018 (Some ''boom'') claimed_world) = Inr ()
   \<and> 15018 \<in> tags (snd (tag_scene_error shipped_config all_ok 7 15018 (Some ''boom'') claimed_world)) 7
   \<and> hashing_tag shipped_config
        \<notin> tags (snd (tag_scene_error shipped_config all_ok 7 15018 (Some ''boom'') claimed_world)) 7"
proof -
  have a: "\<not> dry_run shipped_config" and b: "(15018::nat) \<noteq> hashing_tag shipped_config"
    by (simp_all add: shipped_config_def)
  have c: "fst (tag_scene_error shipped_config all_ok 7 15018 (Some ''boom'') claimed_world) = Inr ()"
    by (simp add: tag_scene_error_def update_scenes_def shipped_config_def all_ok_def)
  from tag_scene_error_marks [OF a b c] a b c show ?thesis by simp
qed

section \<open>Properties of scene discovery\<close>

lemma ceil_pages:
  assumes "1 \<le> (pp::int)" "1 \<le> n"
  shows "max 1 ((n + pp - 1) div pp) = \<lceil>(of_int n :: rat) / of_int pp\<rceil>"
proof -
  define q where "q = (n + pp - 1) div pp"
  define r where "r = (n + pp - 1) mod pp"
  have r: "0 \<le> r" "r < pp" using assms by (simp_all add: r_def)
  have eq: "n + pp - 1 = pp * q + r" by (simp add: q_def r_def)
  have pos: "(0::rat) < of_int pp" using assms by simp
  have up: "of_int n \<le> (of_int q :: rat) * of_int pp"
  proof -
    have "n \<le> q * pp" using eq r by (simp add: algebra_simps)
    then have "(of_int n :: rat) \<le> of_int (q * pp)" by (simp only: of_int_le_iff)
    then show ?thesis by simp
  qed
  have lo: "(of_int q - 1 :: rat) * of_int pp < of_int n"
  proof -
    have "(q - 1) * pp < n" using eq r by (simp add: algebra_simps)
    then have "(of_int ((q - 1) * pp) :: rat) < of_int n" by (simp only: of_int_less_iff)
    then show ?thesis by simp
  qed
  have "\<lceil>(of_int n :: rat) / of_int pp\<rceil> = q"
  proof (rule ceiling_unique)
    show "of_int q - 1 < (of_int n :: rat) / of_int pp"
      using lo pos by (simp add: pos_less_divide_eq)
    show "(of_int n :: rat) / of_int pp \<le> of_int q"
      using up pos by (simp add: pos_divide_le_eq)
  qed
  moreover have "1 \<le> q"
  proof -
    have "0 < pp * q" using eq r assms by linarith
    with assms have "0 < q" by (simp add: zero_less_mult_iff)
    then show ?thesis by simp
  qed
  ultimately show ?thesis unfolding q_def by simp
qed


text \<open>
  Claim C7. When the id-only query returns no scene, \<open>discover_scenes\<close> returns the
  empty batch and has sent that one query only: no page is fetched. When it returns at
  least one scene (and the batch size is at least one), the number of pages is
  \<open>\<lceil>total_count / per_page\<rceil>\<close>, the page index is the value \<^verbatim>\<open>random.randint\<close> draws
  for the bounds \<open>1\<close> and \<open>total_pages\<close>, used as drawn and so within
  \<open>[1, total_pages]\<close> with the distribution of that draw, and exactly one further
  query is sent: the one for that page with the full fragment, whose answer is the batch
  when no file mask is set.
\<close>

theorem discover_scenes_page:
  "(find_scenes (AllIds [hashing_tag cfg, hashing_error_tag cfg, cover_error_tag cfg]) = Inr []
      \<longrightarrow> discover_scenes cfg find_scenes randint fnmatch
            = (Inr [], [AllIds [hashing_tag cfg, hashing_error_tag cfg, cover_error_tag cfg]]))
   \<and> (find_scenes (AllIds [hashing_tag cfg, hashing_error_tag cfg, cover_error_tag cfg]) = Inr found
        \<and> found \<noteq> [] \<and> 1 \<le> per_page cfg
        \<and> total_pages = \<lceil>(of_int (int (length found)) :: rat) / of_int (per_page cfg)\<rceil>
        \<and> (\<forall>a b. a \<le> b \<longrightarrow> a \<le> randint a b \<and> randint a b \<le> b)
      \<longrightarrow> snd (discover_scenes cfg find_scenes randint fnmatch)
            = [AllIds [hashing_tag cfg, hashing_error_tag cfg, cover_error_tag cfg],
               FullPage [hashing_tag cfg, hashing_error_tag cfg, cover_error_tag cfg]
                 (per_page cfg) (randint 1 total_pages)]
          \<and> 1 \<le> randint 1 total_pages \<and> randint 1 total_pages \<le> total_pages
          \<and> (filemask cfg = None \<longrightarrow>
                fst (discover_scenes cfg find_scenes randint fnmatch)
                  = find_scenes (FullPage [hashing_tag cfg, hashing_error_tag cfg, cover_error_tag cfg]
                                   (per_page cfg) (randint 1 total_pages))))"
proof (intro conjI impI)
  assume "find_scenes (AllIds [hashing_tag cfg, hashing_error_tag cfg, cover_error_tag cfg]) = Inr []"
  then show "discover_scenes cfg find_scenes randint fnmatch
      = (Inr [], [AllIds [hashing_tag cfg, hashing_error_tag cfg, cover_error_tag cfg]])"
    by (simp add: discover_scenes_def)
next
  assume h: "find_scenes (AllIds [hashing_tag cfg, hashing_error_tag cfg, cover_error_tag cfg]) = Inr found
        \<and> found \<noteq> [] \<and> 1 \<le> per_page cfg
        \<and> total_pages = \<lceil>(of_int (int (length found)) :: rat) / of_int (per_page cfg)\<rceil>
        \<and> (\<forall>a b. a \<le> b \<longrightarrow> a \<le> randint a b \<and> randint a b \<le> b)"
  then have n: "1 \<le> int (length found)" by (cases found) simp_all
  from h have pp: "1 \<le> per_page cfg" by simp
  have tp: "max 1 ((int (length found) + per_page cfg - 1) div per_page cfg) = total_pages"
    using ceil_pages [OF pp n] h by simp
  then have tp1: "1 \<le> total_pages" by linarith
  with h show "1 \<le> randint 1 total_pages" and "randint 1 total_pages \<le> total_pages"
    by blast+
  show "snd (discover_scenes cfg find_scenes randint fnmatch)
      = [AllIds [hashing_tag cfg, hashing_error_tag cfg, cover_error_tag cfg],
         FullPage [hashing_tag cfg, hashing_error_tag cfg, cover_error_tag cfg]
           (per_page cfg) (randint 1 total_pages)]"
    using h pp n
    by (simp add: discover_scenes_def Let_def tp split: sum.splits option.splits)
  assume "filemask cfg = None"
  then show "fst (discover_scenes cfg find_scenes randint fnmatch)
      = find_scenes (FullPage [hashing_tag cfg, hashing_error_tag cfg, cover_error_tag cfg]
                       (per_page cfg) (randint 1 total_pages))"
    using h pp n
    by (simp add: discover_scenes_def Let_def tp split: sum.splits option.splits)
qed

theorem discover_scenes_page_witness:
  "empty_catalog (AllIds [hashing_tag shipped_config, hashing_error_tag shipped_config,
                          cover_error_tag shipped_config]) = Inr []
   \<and> discover_scenes shipped_config empty_catalog draw_last no_match
       = (Inr [], [AllIds [hashing_tag shipped_config, hashing_error_tag shipped_config,
                           cover_error_tag shipped_config]])
   \<and> paged_catalog (AllIds [hashing_tag shipped_config, hashing_error_tag shipped_config,
                             cover_error_tag shipped_config]) = Inr sixty_scenes
   \<and> sixty_scenes \<noteq> [] \<and> 1 \<le> per_page shipped_config
   \<and> (3::int) = \<lceil>(of_int (int (length sixty_scenes)) :: rat) / of_int (per_page shipped_config)\<rceil>
   \<and> filemask shipped_config = None
   \<and> snd (discover_scenes shipped_config paged_catalog draw_last no_match)
       = [AllIds [hashing_tag shipped_config, hashing_error_tag shipped_config,
                  cover_error_tag shipped_config],
          FullPage [hashing_tag shipped_config, hashing_error_tag shipped_config,
                    cover_error_tag shipped_config] (per_page shipped_config) (draw_last 1 3)]
   \<and> 1 \<le> draw_last 1 3 \<and> draw_last 1 3 \<le> 3
   \<and> fst (discover_scenes shipped_config paged_catalog draw_last no_match)
       = paged_catalog (FullPage [hashing_tag shipped_config, hashing_error_tag shipped_config,
                                  cover_error_tag shipped_config]
                          (per_page shipped_config) (draw_last 1 3))"
proof -
  have e: "empty_catalog (AllIds [hashing_tag shipped_config, hashing_error_tag shipped_config,
                          cover_error_tag shipped_config]) = Inr []"
    by (simp add: empty_catalog_def)
  have p: "paged_catalog (AllIds [hashing_tag shipped_config, hashing_error_tag shipped_config,
                             cover_error_tag shipped_config]) = Inr sixty_scenes"
    by (simp add: paged_catalog_def)
  have n: "sixty_scenes \<noteq> []" "length sixty_scenes = 60"
    by (simp_all add: sixty_scenes_def)
  have c: "1 \<le> per_page shipped_config" "filemask shipped_config = None"
    by (simp_all add: shipped_config_def)
  have "\<lceil>(of_int (int (length sixty_scenes)) :: rat) / of_int (per_page shipped_config)\<rceil> = (3::int)"
    by (simp add: n shipped_config_def ceiling_eq_iff)
  then have t: "(3::int) = \<lceil>(of_int (int (length sixty_scenes)) :: rat) / of_int (per_page shipped_config)\<rceil>"
    by simp
  have r: "\<forall>a b. a \<le> b \<longrightarrow> a \<le> draw_last a b \<and> draw_last a b \<le> b"
    by (simp add: draw_last_def)
  from discover_scenes_page [where cfg = shipped_config and find_scenes = empty_catalog
      and randint = draw_last and fnmatch = no_match] e
  have first: "discover_scenes shipped_config empty_catalog draw_last no_match
       = (Inr [], [AllIds [hashing_tag shipped_config, hashing_error_tag shipped_config,
                           cover_error_tag shipped_config]])"
    by blast
  from discover_scenes_page [where cfg = shipped_config and find_scenes = paged_catalog
      and randint = draw_last and fnmatch = no_match and found = sixty_scenes
      and total_pages = 3] p n(1) c t r
  have second: "snd (discover_scenes shipped_config paged_catalog draw_last no_match)
       = [AllIds [hashing_tag shipped_config, hashing_error_tag shipped_config,
                  cover_error_tag shipped_config],
          FullPage [hashing_tag shipped_config, hashing_error_tag shipped_config,
                    cover_error_tag shipped_config] (per_page shipped_config) (draw_last 1 3)]
     \<and> 1 \<le> draw_last 1 3 \<and> draw_last 1 3 \<le> 3
     \<and> fst (discover_scenes shipped_config paged_catalog draw_last no_match)
       = paged_catalog (FullPage [hashing_tag shipped_config, hashing_error_tag shipped_config,
                                  cover_error_tag shipped_config]
                          (per_page shipped_config) (draw_last 1 3))"
    by blast
  from e first p n(1) c t second show ?thesis by blast
qed

section \<open>Properties of process\_scene\<close>

lemma same_counts_refl [simp]: "same_counts w w"
  by (simp add: same_counts_def)

lemma same_counts_trans: "same_counts w w1 \<Longrightarrow> same_counts w1 w2 \<Longrightarrow> same_counts w w2"
  by (simp add: same_counts_def)

lemma makedirs_counts [simp]: "same_counts w (makedirs d w)"
  by (simp add: same_counts_def makedirs_def split: option.splits)

lemma rmtree_counts [simp]: "same_counts w (rmtree d w)"
  by (simp add: same_counts_def rmtree_def)

lemma update_scenes_counts: "same_counts w (snd (update_scenes ok sid t m w))"
  by (simp add: same_counts_def update_scenes_def)

lemma tag_scene_error_counts: "same_counts w (snd (tag_scene_error cfg ans sid t msg w))"
  by (simp add: same_counts_def tag_scene_error_def update_scenes_def split: option.splits)

lemma update_phash_counts: "same_counts w (snd (update_phash cfg ok fid ph w))"
  by (simp add: same_counts_def update_phash_def)

lemma update_cover_counts: "same_counts w (snd (update_cover cfg ok sid w))"
  by (simp add: same_counts_def update_cover_def)

lemma take_screenshots_counts: "same_counts w (snd (take_screenshots g env w))"
  by (simp add: same_counts_def take_screenshots_def clean_previous_files_def makedirs_def
      rmtree_def Let_def split: option.splits prod.splits)

lemma create_sprite_counts: "same_counts w (snd (create_sprite g w))"
  by (simp add: same_counts_def create_sprite_def Let_def split: option.splits sum.splits)

lemma generate_sprite_counts: "same_counts w (snd (generate_sprite g env w))"
proof -
  obtain r w1 where t: "take_screenshots g env w = (r, w1)" by (cases "take_screenshots g env w")
  then have a: "same_counts w w1" using take_screenshots_counts [of w g env] by simp
  have b: "same_counts w1 (snd (create_sprite g w1))" by (rule create_sprite_counts)
  show ?thesis
    using a b
    by (auto simp: generate_sprite_def t clean_up_def rmtree_def same_counts_def
        split: sum.splits prod.splits)
qed

lemma generate_clips_counts: "same_counts w (snd (generate_clips g env w))"
  by (simp add: same_counts_def generate_clips_def makedirs_def Let_def
      split: option.splits sum.splits)

lemma concatenate_clips_counts: "same_counts w (snd (concatenate_clips g env clips w))"
  by (simp add: same_counts_def concatenate_clips_def Let_def split: option.splits exn.splits)

lemma generate_preview_counts: "same_counts w (snd (generate_preview g env w))"
proof -
  let ?w0 = "clean_previous_clips g w"
  have z: "same_counts w ?w0" by (simp add: clean_previous_clips_def)
  obtain r w1 where t: "generate_clips g env ?w0 = (r, w1)" by (cases "generate_clips g env ?w0")
  then have "same_counts ?w0 w1" using generate_clips_counts [of ?w0 g env] by simp
  with z have a: "same_counts w w1" by (rule same_counts_trans)
  show ?thesis
  proof (cases r)
    case (Inl e)
    then show ?thesis using a by (simp add: generate_preview_def t)
  next
    case (Inr clips)
    obtain r2 w2 where c: "concatenate_clips g env clips w1 = (r2, w2)"
      by (cases "concatenate_clips g env clips w1")
    then have "same_counts w1 w2" using concatenate_clips_counts [of w1 g env clips] by simp
    with a have "same_counts w w2" by (rule same_counts_trans)
    moreover have "same_counts w2 (clean_previous_clips g w2)" by (simp add: clean_previous_clips_def)
    ultimately have "same_counts w (clean_previous_clips g w2)" by (rule same_counts_trans)
    then show ?thesis using a Inr by (simp add: generate_preview_def t c)
  qed
qed

text \<open>A handler that tags the scene after a failed step.\<close>

lemma tagged_counts:
  assumes "same_counts w w1"
  shows "same_counts w (snd (case tag_scene_error cfg ans sid t msg w1 of
                                (Inl e', w2) \<Rightarrow> (Inl e', w2)
                              | (Inr u, w2) \<Rightarrow> (Inr (False::bool), w2)))"
proof -
  obtain r w2 where x: "tag_scene_error cfg ans sid t msg w1 = (r, w2)"
    by (cases "tag_scene_error cfg ans sid t msg w1")
  then have "same_counts w1 w2" using tag_scene_error_counts [of w1 cfg ans sid t msg] by simp
  with assms have "same_counts w w2" by (rule same_counts_trans)
  then show ?thesis by (simp add: x split: sum.splits)
qed

lemma phash_step_counts: "same_counts w (snd (phash_step cfg env sid fid w))"
proof (cases "dry_run cfg")
  case True
  then show ?thesis by (simp add: phash_step_def)
next
  case False
  obtain r w1 where h: "(case videohash env of Inl e \<Rightarrow> (Inl e, w)
        | Inr phash \<Rightarrow> update_phash cfg (phash_ok env) fid phash w) = (r, w1)"
    by (cases "case videohash env of Inl e \<Rightarrow> (Inl e, w)
        | Inr phash \<Rightarrow> update_phash cfg (phash_ok env) fid phash w")
  have a: "same_counts w w1"
  proof (cases "videohash env")
    case (Inl e)
    with h show ?thesis by simp
  next
    case (Inr ph)
    with h update_phash_counts [of w cfg "phash_ok env" fid ph] show ?thesis by simp
  qed
  show ?thesis
  proof (cases r)
    case (Inr u)
    with a False show ?thesis by (simp add: phash_step_def h)
  next
    case (Inl e)
    with False tagged_counts [OF a] show ?thesis by (simp add: phash_step_def h)
  qed
qed

lemma cover_extract_counts: "same_counts w (snd (cover_extract cfg env sid w))"
  using update_cover_counts [of w cfg "cover_ok env" sid]
  by (simp add: cover_extract_def split: option.splits)

lemma cover_step_counts: "same_counts w (snd (cover_step cfg env sc filehash w))"
proof -
  define tmp where "tmp = ''.tmp/cover_temp_'' @ filehash"
  define inner where "inner = (case screenshot sc of
               None \<Rightarrow> (Inr (), w)
             | Some cover_image \<Rightarrow>
                 if cover_image = [] then (Inr (), w)
                 else
                   (case cover_fetch env of
                      Inl e \<Rightarrow> (Inl e, w)
                    | Inr is_svg \<Rightarrow>
                        if \<not> is_svg then (Inr (), w)
                        else
                          let w0 = makedirs tmp w in
                          if dry_run cfg then (Inr (), w0)
                          else
                            let (r1, w1) = cover_extract cfg env (sc_id sc) w0;
                                (r2, w2) =
                                  (case r1 of
                                     Inr u \<Rightarrow> (Inr (), w1)
                                   | Inl e \<Rightarrow>
                                       tag_scene_error cfg (tag_answer env CoverGeneration)
                                         (sc_id sc) (cover_error_tag cfg)
                                         (Some (error_text env e)) w1)
                            in (r2, rmtree tmp w2)))"
  have body: "same_counts w (snd
      (let (r1, w1) = cover_extract cfg env (sc_id sc) (makedirs tmp w);
           (r2, w2) = (case r1 of Inr u \<Rightarrow> (Inr (), w1)
                       | Inl e \<Rightarrow> tag_scene_error cfg (tag_answer env CoverGeneration)
                                    (sc_id sc) (cover_error_tag cfg) (Some (error_text env e)) w1)
       in (r2, rmtree tmp w2)))"
  proof -
    obtain r1 w1 where x: "cover_extract cfg env (sc_id sc) (makedirs tmp w) = (r1, w1)"
      by (cases "cover_extract cfg env (sc_id sc) (makedirs tmp w)")
    then have "same_counts (makedirs tmp w) w1"
      using cover_extract_counts [of "makedirs tmp w" cfg env "sc_id sc"] by simp
    then have a: "same_counts w w1" using makedirs_counts same_counts_trans by blast
    show ?thesis
    proof (cases r1)
      case (Inr u)
      with a show ?thesis by (simp add: x same_counts_def rmtree_def)
    next
      case (Inl e)
      obtain r2 w2 where y: "tag_scene_error cfg (tag_answer env CoverGeneration)
           (sc_id sc) (cover_error_tag cfg) (Some (error_text env e)) w1 = (r2, w2)"
        by (cases "tag_scene_error cfg (tag_answer env CoverGeneration)
           (sc_id sc) (cover_error_tag cfg) (Some (error_text env e)) w1")
      then have "same_counts w1 w2"
        using tag_scene_error_counts [of w1 cfg "tag_answer env CoverGeneration" "sc_id sc"
            "cover_error_tag cfg" "Some (error_text env e)"] by simp
      with a have "same_counts w w2" by (rule same_counts_trans)
      then show ?thesis using Inl by (simp add: x y same_counts_def rmtree_def)
    qed
  qed
  have inner_counts: "same_counts w (snd inner)"
    unfolding inner_def using body
    by (simp add: Let_def split: option.splits sum.splits)
  obtain r w1 where i: "inner = (r, w1)" by (cases inner)
  with inner_counts have a: "same_counts w w1" by simp
  have step: "cover_step cfg env sc filehash w =
      (case r of Inr u \<Rightarrow> (Inr (), w1)
       | Inl e \<Rightarrow> tag_scene_error cfg (tag_answer env CoverSetup) (sc_id sc) (cover_error_tag cfg)
               (Some (error_text env e)) w1)"
    unfolding cover_step_def Let_def i [unfolded inner_def tmp_def Let_def] by simp
  show ?thesis
  proof (cases r)
    case (Inr u)
    with a show ?thesis by (simp add: step)
  next
    case (Inl e)
    have "same_counts w1 (snd (tag_scene_error cfg (tag_answer env CoverSetup) (sc_id sc)
        (cover_error_tag cfg) (Some (error_text env e)) w1))"
      by (rule tag_scene_error_counts)
    with a have "same_counts w (snd (tag_scene_error cfg (tag_answer env CoverSetup) (sc_id sc)
        (cover_error_tag cfg) (Some (error_text env e)) w1))"
      by (rule same_counts_trans)
    with Inl show ?thesis by (simp add: step)
  qed
qed

lemma sprite_step_counts: "same_counts w (snd (sprite_step cfg env v sid filename filehash w))"
proof -
  have g: "same_counts w (snd (case generate_sprite gen (media env) w of
              (Inr u, w1) \<Rightarrow> (Inr True, w1)
            | (Inl e, w1) \<Rightarrow>
                (case tag_scene_error cfg (tag_answer env SpriteGeneration) sid
                        (hashing_error_tag cfg) (Some (error_text env e)) w1 of
                   (Inl e', w2) \<Rightarrow> (Inl e', w2)
                 | (Inr u, w2) \<Rightarrow> (Inr False, w2))))" for gen
  proof -
    obtain r w1 where x: "generate_sprite gen (media env) w = (r, w1)"
      by (cases "generate_sprite gen (media env) w")
    then have a: "same_counts w w1" using generate_sprite_counts [of w gen "media env"] by simp
    show ?thesis
    proof (cases r)
      case (Inr u)
      with a show ?thesis by (simp add: x)
    next
      case (Inl e)
      with tagged_counts [OF a] show ?thesis by (simp add: x)
    qed
  qed
  show ?thesis
    unfolding sprite_step_def Let_def using g by simp
qed

lemma preview_step_counts: "same_counts w (snd (preview_step cfg env v sid filename filehash w))"
proof -
  have g: "same_counts w (snd (case generate_preview gen (media env) w of
              (Inr u, w1) \<Rightarrow> (Inr True, w1)
            | (Inl e, w1) \<Rightarrow>
                (case tag_scene_error cfg (tag_answer env PreviewGeneration) sid
                        (hashing_error_tag cfg) (Some (error_text env e)) w1 of
                   (Inl e', w2) \<Rightarrow> (Inl e', w2)
                 | (Inr u, w2) \<Rightarrow> (Inr False, w2))))" for gen
  proof -
    obtain r w1 where x: "generate_preview gen (media env) w = (r, w1)"
      by (cases "generate_preview gen (media env) w")
    then have a: "same_counts w w1" using generate_preview_counts [of w gen "media env"] by simp
    show ?thesis
    proof (cases r)
      case (Inr u)
      with a show ?thesis by (simp add: x)
    next
      case (Inl e)
      with tagged_counts [OF a] show ?thesis by (simp add: x)
    qed
  qed
  show ?thesis
    unfolding preview_step_def Let_def using g by simp
qed

lemma process_claimed_counts:
  "same_counts w (snd (process_claimed cfg env v sc file filename filehash w))"
proof -
  obtain r1 w1 where a: "phash_step cfg env (sc_id sc) (f_id file) w = (r1, w1)"
    by (cases "phash_step cfg env (sc_id sc) (f_id file) w")
  obtain r2 w2 where b: "cover_step cfg env sc filehash w1 = (r2, w2)"
    by (cases "cover_step cfg env sc filehash w1")
  obtain r3 w3 where c: "sprite_step cfg env v (sc_id sc) filename filehash w2 = (r3, w3)"
    by (cases "sprite_step cfg env v (sc_id sc) filename filehash w2")
  obtain r4 w4 where d: "preview_step cfg env v (sc_id sc) filename filehash w3 = (r4, w4)"
    by (cases "preview_step cfg env v (sc_id sc) filename filehash w3")
  have 1: "same_counts w w1" using phash_step_counts [of w cfg env "sc_id sc" "f_id file"] a by simp
  have "same_counts w1 w2" using cover_step_counts [of w1 cfg env sc filehash] b by simp
  with 1 have 2: "same_counts w w2" by (rule same_counts_trans)
  have "same_counts w2 w3"
    using sprite_step_counts [of w2 cfg env v "sc_id sc" filename filehash] c by simp
  with 2 have 3: "same_counts w w3" by (rule same_counts_trans)
  have "same_counts w3 w4"
    using preview_step_counts [of w3 cfg env v "sc_id sc" filename filehash] d by simp
  with 3 have 4: "same_counts w w4" by (rule same_counts_trans)
  show ?thesis
    using 1 2 3 4 by (simp add: process_claimed_def a b c d split: sum.splits)
qed

lemma claim_scene_cases:
  assumes "claim_scene cfg ok sid w = (r, w1)"
  shows "(r = Inr () \<and> claims w1 = claims w + 1 \<and> releases w1 = releases w \<and> (dry_run cfg \<or> ok))
       \<or> ((\<exists>e. r = Inl e) \<and> w1 = w \<and> \<not> dry_run cfg \<and> \<not> ok)"
  using assms by (auto simp: claim_scene_def update_scenes_def split: if_splits)

lemma release_scene_effect:
  assumes "release_scene cfg ok sid w = (r, w3)"
  shows "claims w3 = claims w \<and> releases w3 = releases w + 1
       \<and> (\<not> dry_run cfg \<and> ok \<longrightarrow> hashing_tag cfg \<notin> tags w3 sid)"
  using assms by (auto simp: release_scene_def update_scenes_def Let_def split: if_splits)

lemma claimed_then_released:
  assumes c: "claim_scene cfg (claim_ok env) (sc_id sc) w = (Inr (), w1)"
  shows "claims (snd (let (r, w2) = process_claimed cfg env v sc fl fname fhash w1;
                         (released, w3) = release_scene cfg (release_ok env) (sc_id sc) w2
                     in (case released of Inl e \<Rightarrow> (Inl e, w3) | Inr u \<Rightarrow> (r, w3)))) = claims w + 1
       \<and> releases (snd (let (r, w2) = process_claimed cfg env v sc fl fname fhash w1;
                         (released, w3) = release_scene cfg (release_ok env) (sc_id sc) w2
                     in (case released of Inl e \<Rightarrow> (Inl e, w3) | Inr u \<Rightarrow> (r, w3)))) = releases w + 1
       \<and> (\<not> dry_run cfg \<and> release_ok env \<longrightarrow>
            hashing_tag cfg \<notin> tags (snd (let (r, w2) = process_claimed cfg env v sc fl fname fhash w1;
                         (released, w3) = release_scene cfg (release_ok env) (sc_id sc) w2
                     in (case released of Inl e \<Rightarrow> (Inl e, w3) | Inr u \<Rightarrow> (r, w3)))) (sc_id sc))"
proof -
  from claim_scene_cases [OF c] have c1: "claims w1 = claims w + 1" "releases w1 = releases w"
    by simp_all
  obtain r w2 where p: "process_claimed cfg env v sc fl fname fhash w1 = (r, w2)"
    by (cases "process_claimed cfg env v sc fl fname fhash w1")
  then have p1: "claims w2 = claims w1" "releases w2 = releases w1"
    using process_claimed_counts [of w1 cfg env v sc fl fname fhash]
    by (simp_all add: same_counts_def)
  obtain rr w3 where q: "release_scene cfg (release_ok env) (sc_id sc) w2 = (rr, w3)"
    by (cases "release_scene cfg (release_ok env) (sc_id sc) w2")
  have "(let (r, w2) = process_claimed cfg env v sc fl fname fhash w1;
             (released, w3) = release_scene cfg (release_ok env) (sc_id sc) w2
         in (case released of Inl e \<Rightarrow> (Inl e, w3) | Inr u \<Rightarrow> (r, w3)))
        = (case rr of Inl e \<Rightarrow> (Inl e, w3) | Inr u \<Rightarrow> (r, w3))"
    by (simp add: p q)
  then have fin: "snd (let (r, w2) = process_claimed cfg env v sc fl fname fhash w1;
             (released, w3) = release_scene cfg (release_ok env) (sc_id sc) w2
         in (case released of Inl e \<Rightarrow> (Inl e, w3) | Inr u \<Rightarrow> (r, w3))) = w3"
    by (cases rr) simp_all
  from release_scene_effect [OF q] c1 p1 show ?thesis
    unfolding fin by simp
qed

text \<open>
  Claim C1. In every call of \<open>process_scene\<close> the number of releases equals the number
  of claims. For a scene that reaches the claim (it has a file whose path has a
  separator, and the translated path exists) and on which \<open>claim_scene\<close> succeeds,
  \<open>release_scene\<close> is called exactly once whatever the later steps do, whether
  \<open>process_scene\<close> returns a success, returns a failure, or is left by an exception of
  a handler: the \<^verbatim>\<open>finally\<close> clause runs on every exit path. Outside dry-run mode the
  processing tag is then absent from the scene when \<open>process_scene\<close> is left, provided
  the catalog carried out the removal that the release sent.
\<close>

theorem process_scene_releases:
  "releases (snd (process_scene cfg env v sc w)) + claims w
     = claims (snd (process_scene cfg env v sc w)) + releases w
   \<and> (sc_files sc = fl # others \<and> pretty_name (f_path fl) \<noteq> None
        \<and> media_exists env (normpath env (translate (cfg_translations cfg) (f_path fl)))
        \<and> (dry_run cfg \<or> claim_ok env)
      \<longrightarrow> claims (snd (process_scene cfg env v sc w)) = claims w + 1
          \<and> releases (snd (process_scene cfg env v sc w)) = releases w + 1
          \<and> (\<not> dry_run cfg \<and> release_ok env \<longrightarrow>
                hashing_tag cfg \<notin> tags (snd (process_scene cfg env v sc w)) (sc_id sc)))"
proof (intro conjI impI)
  show "releases (snd (process_scene cfg env v sc w)) + claims w
     = claims (snd (process_scene cfg env v sc w)) + releases w"
  proof (cases "sc_files sc")
    case Nil
    then show ?thesis by (simp add: process_scene_def)
  next
    case (Cons f fs)
    show ?thesis
    proof (cases "pretty_name (f_path f)")
      case None
      with Cons show ?thesis by (simp add: process_scene_def)
    next
      case (Some pretty)
      let ?filename = "normpath env (translate (cfg_translations cfg) (f_path f))"
      show ?thesis
      proof (cases "media_exists env ?filename")
        case False
        obtain rt wt where t: "tag_scene_error cfg (tag_answer env FileCheck) (sc_id sc)
            (hashing_error_tag cfg) (Some ''File not found after translation'') w = (rt, wt)"
          by (cases "tag_scene_error cfg (tag_answer env FileCheck) (sc_id sc)
            (hashing_error_tag cfg) (Some ''File not found after translation'') w")
        have "same_counts w (snd (tag_scene_error cfg (tag_answer env FileCheck) (sc_id sc)
            (hashing_error_tag cfg) (Some ''File not found after translation'') w))"
          by (rule tag_scene_error_counts)
        with t have "same_counts w wt" by simp
        with Cons Some False show ?thesis
          by (simp add: process_scene_def Let_def same_counts_def t split: sum.splits)
      next
        case True
        obtain r w1 where c: "claim_scene cfg (claim_ok env) (sc_id sc) w = (r, w1)"
          by (cases "claim_scene cfg (claim_ok env) (sc_id sc) w")
        from claim_scene_cases [OF c] show ?thesis
        proof
          assume ok: "r = Inr () \<and> claims w1 = claims w + 1 \<and> releases w1 = releases w
              \<and> (dry_run cfg \<or> claim_ok env)"
          with c have c': "claim_scene cfg (claim_ok env) (sc_id sc) w = (Inr (), w1)" by simp
          from claimed_then_released [OF c', where v = v and fl = f and fname = ?filename
              and fhash = "scene_filehash env f"]
          show ?thesis using Cons Some True
            by (simp add: process_scene_def Let_def c')
        next
          assume "(\<exists>e. r = Inl e) \<and> w1 = w \<and> \<not> dry_run cfg \<and> \<not> claim_ok env"
          then obtain e where "r = Inl e" "w1 = w" by blast
          with c Cons Some True show ?thesis
            by (simp add: process_scene_def Let_def)
        qed
      qed
    qed
  qed
next
  assume h: "sc_files sc = fl # others \<and> pretty_name (f_path fl) \<noteq> None
        \<and> media_exists env (normpath env (translate (cfg_translations cfg) (f_path fl)))
        \<and> (dry_run cfg \<or> claim_ok env)"
  let ?filename = "normpath env (translate (cfg_translations cfg) (f_path fl))"
  from h obtain pretty where pn: "pretty_name (f_path fl) = Some pretty" by blast
  obtain r w1 where c: "claim_scene cfg (claim_ok env) (sc_id sc) w = (r, w1)"
    by (cases "claim_scene cfg (claim_ok env) (sc_id sc) w")
  from claim_scene_cases [OF c] h have "r = Inr ()" by blast
  with c have c': "claim_scene cfg (claim_ok env) (sc_id sc) w = (Inr (), w1)" by simp
  have unfold: "process_scene cfg env v sc w =
      (let (r, w2) = process_claimed cfg env v sc fl ?filename (scene_filehash env fl) w1;
           (released, w3) = release_scene cfg (release_ok env) (sc_id sc) w2
       in (case released of Inl e \<Rightarrow> (Inl e, w3) | Inr u \<Rightarrow> (r, w3)))"
    using h pn by (simp add: process_scene_def Let_def c')
  note rel = claimed_then_released [OF c', where v = v and fl = fl and fname = ?filename
      and fhash = "scene_filehash env fl"]
  from rel
  show "claims (snd (process_scene cfg env v sc w)) = claims w + 1"
    and "releases (snd (process_scene cfg env v sc w)) = releases w + 1"
    unfolding unfold by blast+
  assume d: "\<not> dry_run cfg \<and> release_ok env"
  from rel d
  show "hashing_tag cfg \<notin> tags (snd (process_scene cfg env v sc w)) (sc_id sc)"
    unfolding unfold by blast
qed

theorem process_scene_releases_witness:
  "sc_files scene7 = file7 # []
   \<and> pretty_name (f_path file7) = Some ''a.mp4''
   \<and> media_exists calm_env (normpath calm_env (translate (cfg_translations shipped_config) (f_path file7)))
   \<and> claim_ok calm_env \<and> \<not> dry_run shipped_config \<and> release_ok calm_env
   \<and> claims (snd (process_scene shipped_config calm_env False scene7 empty_world))
       = claims empty_world + 1
   \<and> releases (snd (process_scene shipped_config calm_env False scene7 empty_world))
       = releases empty_world + 1
   \<and> hashing_tag shipped_config
       \<notin> tags (snd (process_scene shipped_config calm_env False scene7 empty_world)) (sc_id scene7)"
proof -
  have a: "sc_files scene7 = file7 # []" by (simp add: scene7_def)
  have b: "pretty_name (f_path file7) = Some ''a.mp4''" by (simp add: pretty_name_def file7_def)
  have c: "media_exists calm_env (normpath calm_env (translate (cfg_translations shipped_config) (f_path file7)))"
    by (simp add: calm_env_def)
  have d: "claim_ok calm_env" "release_ok calm_env" by (simp_all add: calm_env_def)
  have e: "\<not> dry_run shipped_config" by (simp add: shipped_config_def)
  from process_scene_releases [where cfg = shipped_config and env = calm_env and v = False
      and sc = scene7 and w = empty_world and fl = file7 and others = "[]"] a b c d e
  show ?thesis by simp
qed






end
